theory Spec2Isabelle
  imports Complex_Main "HOL-Library.Word" "HOL-Library.Multiset" "HOL-Library.List_Lexorder"
    "HOL-Library.Product_Lexorder"
begin

section \<open>Data model\<close>

text \<open>
  A JavaScript number as far as this program looks at it: the code only stores numbers and
  tests them for truthiness, so a number is \<open>NaN\<close>, an infinity (\<open>Inf True\<close> is
  \<open>+Infinity\<close>) or a finite value.
\<close>

datatype jsnum = NaN | Inf bool | Num real

fun truthy :: "jsnum \<Rightarrow> bool" where
  "truthy NaN = False"
| "truthy (Inf _) = True"
| "truthy (Num x) = (x \<noteq> 0)"

text \<open>\<open>ProcessedPage\<close> of the type declarations (field \<open>id\<close> is \<open>page_id\<close> here).\<close>

record ProcessedPage =
  page_id :: string
  name :: string
  url :: string
  index :: nat
  width :: jsnum
  height :: jsnum

section \<open>Spread layout (BookReader.displayedPages, App.totalSpreads)\<close>

text \<open>
  The object returned by \<open>displayedPages\<close>. A slot holding \<open>null\<close> is \<open>None\<close>; the
  early return for an empty page list leaves \<open>isCoverView\<close> and \<open>leftIsSpacer\<close>
  undefined, which is \<open>None\<close> here.
\<close>

record SpreadResult =
  left :: "ProcessedPage option"
  right :: "ProcessedPage option"
  isCoverView :: "bool option"
  leftIsSpacer :: "bool option"

text \<open>\<open>(i >= 0 && i < pages.length) ? pages[i] : null\<close>\<close>

definition pageAt :: "ProcessedPage list \<Rightarrow> int \<Rightarrow> ProcessedPage option" where
  "pageAt pages i = (if i \<ge> 0 \<and> i < int (length pages) then Some (pages ! nat i) else None)"

definition displayedPages :: "ProcessedPage list \<Rightarrow> int \<Rightarrow> bool \<Rightarrow> bool \<Rightarrow> SpreadResult" where
  "displayedPages pages spreadIndex hasCover useSpacer =
    (if length pages = 0 then
       \<lparr>left = None, right = None, isCoverView = None, leftIsSpacer = None\<rparr>
     else if hasCover \<and> spreadIndex = 0 then
       \<lparr>left = None, right = Some (pages ! 0), isCoverView = Some True,
        leftIsSpacer = Some False\<rparr>
     else
       let (leftPageIndex, rightPageIndex, spacer) =
         (if hasCover then
            let contentSpreadIndex = spreadIndex - 1 in
            if useSpacer then
              let rightPageIndex = 1 + (contentSpreadIndex * 2);
                  leftPageIndex = rightPageIndex - 1
              in if leftPageIndex = 0 then (- 1, rightPageIndex, True)
                 else (leftPageIndex, rightPageIndex, False)
            else
              let leftPageIndex = 1 + (contentSpreadIndex * 2)
              in (leftPageIndex, leftPageIndex + 1, False)
          else
            if useSpacer then
              let rightPageIndex = spreadIndex * 2;
                  leftPageIndex = rightPageIndex - 1
              in (leftPageIndex, rightPageIndex, leftPageIndex < 0)
            else
              let leftPageIndex = spreadIndex * 2
              in (leftPageIndex, leftPageIndex + 1, False))
       in \<lparr>left = pageAt pages leftPageIndex, right = pageAt pages rightPageIndex,
           isCoverView = Some False, leftIsSpacer = Some spacer\<rparr>)"

text \<open>
  What a slot shows. The component renders the page when the slot is non-null, the blank
  filler when \<open>leftIsSpacer\<close> is truthy, and nothing otherwise; the right slot has no
  filler.
\<close>

datatype slot = Page ProcessedPage | Spacer | Empty

definition leftSlot :: "SpreadResult \<Rightarrow> slot" where
  "leftSlot r = (case left r of Some p \<Rightarrow> Page p
                 | None \<Rightarrow> if leftIsSpacer r = Some True then Spacer else Empty)"

definition rightSlot :: "SpreadResult \<Rightarrow> slot" where
  "rightSlot r = (case right r of Some p \<Rightarrow> Page p | None \<Rightarrow> Empty)"

text \<open>A spread shows a real page when one of its slots holds a page record.\<close>

definition showsRealPage :: "SpreadResult \<Rightarrow> bool" where
  "showsRealPage r = (\<not> (left r = None \<and> right r = None))"

text \<open>\<open>Math.ceil(a / 2)\<close> for an integer-valued \<open>a\<close>.\<close>

definition ceilHalf :: "int \<Rightarrow> int" where
  "ceilHalf a = \<lceil>real_of_int a / 2\<rceil>"

text \<open>\<open>totalSpreads\<close>, as a function of \<open>pages.length\<close> and the two flags.\<close>

definition totalSpreads :: "nat \<Rightarrow> bool \<Rightarrow> bool \<Rightarrow> int" where
  "totalSpreads n hasCover useSpacer =
    (if n = 0 then 0
     else
       let contentPages = int n; spreads = 0 in
       if hasCover then
         let spreads = spreads + 1; contentPages = contentPages - 1 in
         if useSpacer then spreads + ceilHalf (contentPages + 1)
         else spreads + ceilHalf contentPages
       else
         if useSpacer then spreads + ceilHalf (contentPages + 1)
         else spreads + ceilHalf contentPages)"

text \<open>A page record for the concrete examples; only its position in the list matters.\<close>

definition examplePage :: "nat \<Rightarrow> ProcessedPage" where
  "examplePage i = \<lparr>page_id = [], name = [], url = [], index = i,
                    width = Num 595, height = Num 842\<rparr>"

subsection \<open>The spread count against the layout\<close>

lemma ceilHalf_div: "ceilHalf a = (a + 1) div 2"
  unfolding ceilHalf_def by linarith

lemma showsRealPage_iff:
  "showsRealPage (displayedPages pages s hasCover useSpacer) \<longleftrightarrow>
     pages \<noteq> [] \<and>
     (if hasCover then
        s = 0 \<or> (if useSpacer then (2 \<le> s \<and> 2 * s - 2 < int (length pages))
                                  \<or> (s = 1 \<and> 1 < length pages)
                 else 1 \<le> s \<and> 2 * s - 1 < int (length pages))
      else if useSpacer then 0 \<le> s \<and> 2 * s - 1 < int (length pages)
      else 0 \<le> s \<and> 2 * s < int (length pages))"
  by (auto simp add: displayedPages_def showsRealPage_def pageAt_def Let_def split: if_splits)

text \<open>
  Away from the single-page book with cover and spacer, the count is exact: every spread
  index from 0 up to the count shows a real page, and the count itself shows none.
\<close>

lemma totalSpreads_exact:
  assumes "\<not> (length pages = 1 \<and> hasCover \<and> useSpacer)"
  shows "(\<forall>s. 0 \<le> s \<and> s < totalSpreads (length pages) hasCover useSpacer \<longrightarrow>
            showsRealPage (displayedPages pages s hasCover useSpacer))
         \<and> \<not> showsRealPage (displayedPages pages
                 (totalSpreads (length pages) hasCover useSpacer) hasCover useSpacer)"
proof -
  define n where "n = length pages"
  have e: "pages \<noteq> [] \<longleftrightarrow> n \<noteq> 0" by (simp add: n_def)
  show ?thesis
    using assms
    unfolding showsRealPage_iff n_def[symmetric] e totalSpreads_def ceilHalf_div Let_def
    by (cases hasCover; cases useSpacer; cases "n = 0"; simp; presburger)
qed

text \<open>
  C1. The spread count is meant to be exact: every spread index below it shows a real page.
  For a book of one page with cover and spacer both on, the count is 2, and spread 1,
  which is below the count, shows the spacer on the left and nothing on the right: no real
  page at all.
\<close>

theorem totalSpreads_single_page_cover_spacer:
  "totalSpreads (length [examplePage 0]) True True = 2
   \<and> leftSlot (displayedPages [examplePage 0] 1 True True) = Spacer
   \<and> rightSlot (displayedPages [examplePage 0] 1 True True) = Empty
   \<and> \<not> showsRealPage (displayedPages [examplePage 0] 1 True True)"
  by (simp add: totalSpreads_def ceilHalf_div displayedPages_def showsRealPage_def
      leftSlot_def rightSlot_def pageAt_def Let_def)

subsection \<open>The slot formulas\<close>

text \<open>
  C2. For a non-empty page list the layout follows the slot formulas. With cover, spread 0
  is the cover view: page 0 on the right, nothing on the left. With cover and spread
  \<open>s > 0\<close>, \<open>c = s - 1\<close>: with the spacer, the right slot is position
  \<open>1 + 2c\<close> and the left slot the position before it, a spacer when that position is
  0; without, the left slot is position \<open>1 + 2c\<close> and the right slot the next one.
  Without cover: with the spacer, the right slot is position \<open>2s\<close> and the left slot
  the position before it, a spacer when that is negative; without, the left slot is
  position \<open>2s\<close> and the right slot the next one. A position outside \<open>[0, N)\<close> is
  an empty slot.
\<close>

theorem spread_layout_formulas:
  fixes pages :: "ProcessedPage list" and s :: int
  defines "r \<equiv> displayedPages pages s"
  defines "pos \<equiv> \<lambda>i. if 0 \<le> i \<and> i < int (length pages) then Page (pages ! nat i)
                     else Empty"
  assumes "pages \<noteq> []"
  shows "(s = 0 \<longrightarrow> rightSlot (r True u) = Page (pages ! 0) \<and> leftSlot (r True u) = Empty
                    \<and> isCoverView (r True u) = Some True)
       \<and> (s > 0 \<and> u \<longrightarrow> (let c = s - 1; right = 1 + c * 2 in
              rightSlot (r True u) = pos right
            \<and> leftSlot (r True u) = (if right - 1 = 0 then Spacer else pos (right - 1))))
       \<and> (s > 0 \<and> \<not> u \<longrightarrow> (let c = s - 1; left = 1 + c * 2 in
              leftSlot (r True u) = pos left \<and> rightSlot (r True u) = pos (left + 1)))
       \<and> (u \<longrightarrow> (let right = s * 2 in
              rightSlot (r False u) = pos right
            \<and> leftSlot (r False u) = (if right - 1 < 0 then Spacer else pos (right - 1))))
       \<and> (\<not> u \<longrightarrow> (let left = s * 2 in
              leftSlot (r False u) = pos left \<and> rightSlot (r False u) = pos (left + 1)))"
  using assms(3) unfolding r_def pos_def
  by (simp add: displayedPages_def leftSlot_def rightSlot_def pageAt_def Let_def)

theorem spread_layout_formulas_witness:
  "[examplePage 0, examplePage 1, examplePage 2] \<noteq> []
   \<and> leftSlot (displayedPages [examplePage 0, examplePage 1, examplePage 2] 1 True True)
       = Spacer
   \<and> rightSlot (displayedPages [examplePage 0, examplePage 1, examplePage 2] 1 True True)
       = Page (examplePage 1)
   \<and> leftSlot (displayedPages [examplePage 0, examplePage 1, examplePage 2] 2 True True)
       = Page (examplePage 2)
   \<and> rightSlot (displayedPages [examplePage 0, examplePage 1, examplePage 2] 2 True True)
       = Empty"
  using spread_layout_formulas [of "[examplePage 0, examplePage 1, examplePage 2]" 1 True]
        spread_layout_formulas [of "[examplePage 0, examplePage 1, examplePage 2]" 2 True]
  by (simp add: Let_def)

section \<open>Strings and filename extraction (fileUtils.getFilenameFromPath)\<close>

text \<open>
  A JavaScript string is modelled as a \<open>string\<close>: a list of code units below 256.
  \<open>startsWith\<close> and \<open>split\<close> on a one-character class are the methods of the same
  name; \<open>split\<close> never returns an empty array, so the reads \<open>parts[parts.length - 1]\<close>
  and \<open>[0]\<close> are \<open>last\<close> and \<open>hd\<close> of a non-empty list.
\<close>

definition startsWith :: "string \<Rightarrow> string \<Rightarrow> bool" where
  "startsWith s p = (take (length p) s = p)"

fun split :: "(char \<Rightarrow> bool) \<Rightarrow> string \<Rightarrow> string list" where
  "split sep [] = [[]]"
| "split sep (c # cs) =
     (if sep c then [] # split sep cs
      else (case split sep cs of [] \<Rightarrow> [[c]] | p # ps \<Rightarrow> (c # p) # ps))"

text \<open>The character classes \<open>[/\\]\<close> and \<open>[?#]\<close>.\<close>

definition isPathSeparator :: "char \<Rightarrow> bool" where
  "isPathSeparator c = (c = CHR ''/'' \<or> c = CHR 0x5C)"

definition isQueryOrHash :: "char \<Rightarrow> bool" where
  "isQueryOrHash c = (c = CHR ''?'' \<or> c = CHR ''#'')"

text \<open>
  \<open>decodeURIComponent\<close> belongs to the host; the functions that call it take it as the
  parameter \<open>decode\<close>, which returns \<open>None\<close> where the host throws \<open>URIError\<close>. The
  \<open>try\<close>/\<open>catch\<close> around the call is the case distinction on its result.
\<close>

definition getFilenameFromPath :: "(string \<Rightarrow> string option) \<Rightarrow> string \<Rightarrow> string" where
  "getFilenameFromPath decode path =
    (if path = [] then []
     else if startsWith path ''data:'' \<or> startsWith path ''http://''
             \<or> startsWith path ''https://'' then []
     else
       let parts = split isPathSeparator path;
           filename = last parts;
           filename = hd (split isQueryOrHash filename)
       in (case decode filename of Some decoded \<Rightarrow> decoded | None \<Rightarrow> filename))"

text \<open>
  A decoder for the concrete examples: the host's \<open>decodeURIComponent\<close> on strings whose
  escapes are of ASCII bytes. A \<open>%\<close> that two hexadecimal digits do not follow is
  malformed, as in the host; the escape of a byte from 128 on, which the host reads as
  part of a UTF-8 sequence, is outside this model and reported as malformed too.
\<close>

fun hexDigit :: "char \<Rightarrow> nat option" where
  "hexDigit c =
     (let n = of_char c :: nat in
      if 48 \<le> n \<and> n \<le> 57 then Some (n - 48)
      else if 65 \<le> n \<and> n \<le> 70 then Some (n - 55)
      else if 97 \<le> n \<and> n \<le> 102 then Some (n - 87)
      else None)"

fun decodeURIComponent :: "string \<Rightarrow> string option" where
  "decodeURIComponent [] = Some []"
| "decodeURIComponent (c # cs) =
     (if c = CHR ''%'' then
        (case cs of
           h1 # h2 # rest \<Rightarrow>
             (case (hexDigit h1, hexDigit h2) of
                (Some a, Some b) \<Rightarrow>
                  if 16 * a + b < 128
                  then map_option ((#) (char_of (16 * a + b))) (decodeURIComponent rest)
                  else None
              | _ \<Rightarrow> None)
         | _ \<Rightarrow> None)
      else map_option ((#) c) (decodeURIComponent cs))"

subsection \<open>Extraction is total\<close>

lemma split_not_Nil: "split sep s \<noteq> []"
  by (induction s) (auto split: list.splits)

lemma split_no_sep: "\<forall>c\<in>set s. \<not> sep c \<Longrightarrow> split sep s = [s]"
  by (induction s) auto

lemma split_single: "tl (split sep s) = [] \<Longrightarrow> split sep s = [s]"
  using split_not_Nil[of sep] by (induction s) (auto split: list.splits if_splits)

lemma split_with_sep: "\<exists>c\<in>set s. sep c \<Longrightarrow> tl (split sep s) \<noteq> []"
proof
  assume a: "\<exists>c\<in>set s. sep c" and "tl (split sep s) = []"
  then have "split sep s = [s]" by (simp add: split_single)
  with a show False by (induction s) (auto split: list.splits if_splits)
qed

lemma last_split: "last (split sep s) = rev (takeWhile (\<lambda>c. \<not> sep c) (rev s))"
proof (induction s)
  case Nil
  then show ?case by simp
next
  case (Cons c s)
  show ?case
  proof (cases "\<exists>x\<in>set s. sep x")
    case True
    then have "tl (split sep s) \<noteq> []" by (rule split_with_sep)
    then obtain p q ps where "split sep s = p # q # ps"
      by (cases "split sep s"; cases "tl (split sep s)") auto
    with Cons True show ?thesis by (auto simp: takeWhile_append)
  next
    case False
    then have "split sep s = [s]" by (simp add: split_no_sep)
    with False show ?thesis by (auto simp: takeWhile_append)
  qed
qed

lemma hd_split: "hd (split sep s) = takeWhile (\<lambda>c. \<not> sep c) s"
  using split_not_Nil[of sep] by (induction s) (auto split: list.splits)


text \<open>
  C10. Filename extraction returns a string on every input and never throws: the empty
  string for the empty input, for a value that starts with \<open>data:\<close> and for one that
  starts with \<open>http://\<close> or \<open>https://\<close>; otherwise the decoded segment, where the
  segment is what follows the last \<open>/\<close> or backslash, cut at the first \<open>?\<close> or \<open>#\<close>;
  and the segment itself, undecoded, where the decoder throws. The last two conjuncts run
  it on \<open>../img/my%20image.png?v=1#x\<close> and on the malformed \<open>a%2\<close>.
\<close>

theorem getFilenameFromPath_total:
  fixes decode :: "string \<Rightarrow> string option"
  defines "segment \<equiv> \<lambda>path. takeWhile (\<lambda>c. c \<noteq> CHR ''?'' \<and> c \<noteq> CHR ''#'')
                      (rev (takeWhile (\<lambda>c. c \<noteq> CHR ''/'' \<and> c \<noteq> CHR 0x5C) (rev path)))"
  shows "getFilenameFromPath decode path =
           (if path = [] \<or> startsWith path ''data:'' \<or> startsWith path ''http://''
               \<or> startsWith path ''https://'' then []
            else case decode (segment path) of Some decoded \<Rightarrow> decoded
                 | None \<Rightarrow> segment path)
         \<and> getFilenameFromPath decodeURIComponent ''../img/my%20image.png?v=1#x''
             = ''my image.png''
         \<and> getFilenameFromPath decodeURIComponent ''a%2'' = ''a%2''"
proof (intro conjI)
  show "getFilenameFromPath decode path =
           (if path = [] \<or> startsWith path ''data:'' \<or> startsWith path ''http://''
               \<or> startsWith path ''https://'' then []
            else case decode (segment path) of Some decoded \<Rightarrow> decoded
                 | None \<Rightarrow> segment path)"
    unfolding segment_def
    by (simp add: getFilenameFromPath_def Let_def last_split hd_split isPathSeparator_def
        isQueryOrHash_def cong: option.case_cong)
  show "getFilenameFromPath decodeURIComponent ''../img/my%20image.png?v=1#x''
          = ''my image.png''"
    by code_simp
  show "getFilenameFromPath decodeURIComponent ''a%2'' = ''a%2''"
    by code_simp
qed

section \<open>Asset registry (fileUtils.processFiles, lines 149-163)\<close>

text \<open>
  \<open>toLowerCase\<close> on code units below 256: the ASCII capitals and the Latin-1 capitals
  (all of \<open>0xC0\<close> to \<open>0xDE\<close> but the multiplication sign) move up by 32.
\<close>

definition toLowerChar :: "char \<Rightarrow> char" where
  "toLowerChar c =
     (let n = of_char c :: nat in
      if (65 \<le> n \<and> n \<le> 90) \<or> (192 \<le> n \<and> n \<le> 222 \<and> n \<noteq> 215)
      then char_of (n + 32) else c)"

definition toLowerCase :: "string \<Rightarrow> string" where
  "toLowerCase s = map toLowerChar s"

text \<open>
  What the host can fail with: reading a file entry, listing a directory, reading a
  file's content.
\<close>

datatype error = EntryError | ListingError | ReadError

text \<open>
  A \<open>File\<close> of the host: its name, its declared media type, and what its two reads
  give, \<open>readFileAsDataURL(file)\<close> and \<open>file.text()\<close>; \<open>Inl\<close> is a rejected promise.
\<close>

record File =
  file_name :: string
  file_type :: string
  file_dataURL :: "error + string"
  file_text :: "error + string"

text \<open>The two maps \<open>assetMap\<close> and \<open>assetMapLower\<close>.\<close>

record registry =
  assetMap :: "string \<rightharpoonup> string"
  assetMapLower :: "string \<rightharpoonup> string"

definition emptyRegistry :: registry where
  "emptyRegistry = \<lparr>assetMap = Map.empty, assetMapLower = Map.empty\<rparr>"

text \<open>
  The body of the callback given to \<open>assetFiles.map\<close>: on a successful read both maps
  are written; a failed read is caught and logged, and the maps stay as they are.
\<close>

definition registerAsset :: "registry \<Rightarrow> File \<Rightarrow> registry" where
  "registerAsset reg file =
     (case file_dataURL file of
        Inr dataUrl \<Rightarrow>
          \<lparr>assetMap = (assetMap reg)(file_name file \<mapsto> dataUrl),
           assetMapLower = (assetMapLower reg)(toLowerCase (file_name file) \<mapsto> dataUrl)\<rparr>
      | Inl e \<Rightarrow> reg)"

text \<open>
  \<open>Promise.all\<close> over the callbacks: the reads run concurrently and each callback
  writes the maps when its own read completes, so the maps are written in the order
  \<open>completed\<close> in which the reads complete, some permutation of the asset files.
\<close>

definition buildRegistry :: "File list \<Rightarrow> registry" where
  "buildRegistry completed = foldl registerAsset emptyRegistry completed"

definition exampleLogo :: File where
  "exampleLogo = \<lparr>file_name = ''Logo.PNG'', file_type = ''image/png'',
      file_dataURL = Inr ''data:image/png;base64,iVBORw0KGgo='', file_text = Inl ReadError\<rparr>"

definition exampleBroken :: File where
  "exampleBroken = \<lparr>file_name = ''broken.png'', file_type = ''image/png'',
      file_dataURL = Inl ReadError, file_text = Inl ReadError\<rparr>"

text \<open>JavaScript truthiness of a string-or-undefined, and \<open>a || b\<close> on such values.\<close>

definition truthyStr :: "string option \<Rightarrow> bool" where
  "truthyStr v = (case v of None \<Rightarrow> False | Some s \<Rightarrow> s \<noteq> [])"

definition jsOr :: "string option \<Rightarrow> string option \<Rightarrow> string option" where
  "jsOr a b = (if truthyStr a then a else b)"

definition attributeLookup :: "(string \<Rightarrow> string option) \<Rightarrow> registry \<Rightarrow> string \<Rightarrow> string option" where
  "attributeLookup decode reg filename =
     (let assetUrl = assetMap reg filename;
          assetUrl = (if \<not> truthyStr assetUrl then assetMapLower reg (toLowerCase filename)
                      else assetUrl);
          assetUrl = (if \<not> truthyStr assetUrl then
                        (case decode filename of
                           Some decoded \<Rightarrow>
                             jsOr (assetMap reg decoded) (assetMapLower reg (toLowerCase decoded))
                         | None \<Rightarrow> assetUrl)
                      else assetUrl)
      in assetUrl)"

definition stylesheetLookup :: "registry \<Rightarrow> string \<Rightarrow> string option" where
  "stylesheetLookup reg filename =
     jsOr (assetMap reg filename) (assetMapLower reg (toLowerCase filename))"

definition exampleSpaced :: File where
  "exampleSpaced = \<lparr>file_name = ''a b.png'', file_type = ''image/png'',
      file_dataURL = Inr ''data:image/png;base64,AAAA'', file_text = Inl ReadError\<rparr>"

subsection \<open>Lenient asset failure\<close>

lemma registerAsset_Inl: "file_dataURL f = Inl e \<Longrightarrow> registerAsset reg f = reg"
  by (simp add: registerAsset_def)

lemma assetMap_registerAsset_Inr:
  "file_dataURL f = Inr d \<Longrightarrow>
   assetMap (registerAsset reg f) k = (if file_name f = k then Some d else assetMap reg k)"
  by (simp add: registerAsset_def)

lemma assetMapLower_registerAsset_Inr:
  "file_dataURL f = Inr d \<Longrightarrow>
   assetMapLower (registerAsset reg f) k =
     (if toLowerCase (file_name f) = k then Some d else assetMapLower reg k)"
  by (simp add: registerAsset_def)

lemma dom_assetMap_registerAsset:
  "dom (assetMap (registerAsset reg f)) =
     (if isl (file_dataURL f) then dom (assetMap reg)
      else insert (file_name f) (dom (assetMap reg)))"
  by (cases "file_dataURL f") (auto simp: registerAsset_def)

lemma dom_assetMapLower_registerAsset:
  "dom (assetMapLower (registerAsset reg f)) =
     (if isl (file_dataURL f) then dom (assetMapLower reg)
      else insert (toLowerCase (file_name f)) (dom (assetMapLower reg)))"
  by (cases "file_dataURL f") (auto simp: registerAsset_def)

lemma assetMap_foldl_dom:
  "dom (assetMap (foldl registerAsset reg fs)) =
     dom (assetMap reg) \<union> file_name ` {f \<in> set fs. \<not> isl (file_dataURL f)}"
  by (induction fs arbitrary: reg) (auto simp: dom_assetMap_registerAsset)

lemma assetMapLower_foldl_dom:
  "dom (assetMapLower (foldl registerAsset reg fs)) =
     dom (assetMapLower reg)
     \<union> (\<lambda>f. toLowerCase (file_name f)) ` {f \<in> set fs. \<not> isl (file_dataURL f)}"
  by (induction fs arbitrary: reg) (auto simp: dom_assetMapLower_registerAsset)

lemma assetMap_foldl_val:
  "assetMap (foldl registerAsset reg fs) k = Some d \<Longrightarrow>
     assetMap reg k = Some d \<or> (\<exists>f\<in>set fs. file_name f = k \<and> file_dataURL f = Inr d)"
proof (induction fs arbitrary: reg)
  case Nil
  then show ?case by simp
next
  case (Cons a fs)
  from Cons.prems have "assetMap (foldl registerAsset (registerAsset reg a) fs) k = Some d"
    by simp
  from Cons.IH[OF this] show ?case
    by (cases "file_dataURL a")
       (auto simp: registerAsset_Inl assetMap_registerAsset_Inr split: if_splits)
qed

lemma assetMapLower_foldl_val:
  "assetMapLower (foldl registerAsset reg fs) k = Some d \<Longrightarrow>
     assetMapLower reg k = Some d
     \<or> (\<exists>f\<in>set fs. toLowerCase (file_name f) = k \<and> file_dataURL f = Inr d)"
proof (induction fs arbitrary: reg)
  case Nil
  then show ?case by simp
next
  case (Cons a fs)
  from Cons.prems
  have "assetMapLower (foldl registerAsset (registerAsset reg a) fs) k = Some d"
    by simp
  from Cons.IH[OF this] show ?case
    by (cases "file_dataURL a")
       (auto simp: registerAsset_Inl assetMapLower_registerAsset_Inr split: if_splits)
qed

text \<open>
  C8. Whatever the order in which the reads complete, the registry is built (the build
  has no failing branch) and: every asset whose read succeeds has its name in
  \<open>assetMap\<close> and its lowercased name in \<open>assetMapLower\<close>; every entry of either map is
  the data URL of an asset whose read succeeded, so an asset whose read failed
  contributes nothing; and the name of a failed asset is absent from a map unless an
  asset with the same (lowercased) name was read successfully.
\<close>

theorem registry_lenient:
  assumes "mset completed = mset assetFiles"
  defines "reg \<equiv> buildRegistry completed"
  shows "(\<forall>f\<in>set assetFiles. \<not> isl (file_dataURL f) \<longrightarrow>
            assetMap reg (file_name f) \<noteq> None
          \<and> assetMapLower reg (toLowerCase (file_name f)) \<noteq> None)
       \<and> (\<forall>k d. assetMap reg k = Some d \<longrightarrow>
            (\<exists>f\<in>set assetFiles. file_name f = k \<and> file_dataURL f = Inr d))
       \<and> (\<forall>k d. assetMapLower reg k = Some d \<longrightarrow>
            (\<exists>f\<in>set assetFiles. toLowerCase (file_name f) = k \<and> file_dataURL f = Inr d))
       \<and> (\<forall>f\<in>set assetFiles. isl (file_dataURL f) \<longrightarrow>
            (\<forall>g\<in>set assetFiles. file_name g = file_name f \<longrightarrow> isl (file_dataURL g)) \<longrightarrow>
            assetMap reg (file_name f) = None)
       \<and> (\<forall>f\<in>set assetFiles. isl (file_dataURL f) \<longrightarrow>
            (\<forall>g\<in>set assetFiles. toLowerCase (file_name g) = toLowerCase (file_name f)
                 \<longrightarrow> isl (file_dataURL g)) \<longrightarrow>
            assetMapLower reg (toLowerCase (file_name f)) = None)"
proof -
  have s: "set completed = set assetFiles" using assms(1) by (metis set_mset_mset)
  have a: "assetMap reg k \<noteq> None \<longleftrightarrow>
      (\<exists>f\<in>set assetFiles. file_name f = k \<and> \<not> isl (file_dataURL f))" for k
    using assetMap_foldl_dom[of emptyRegistry completed]
    unfolding reg_def buildRegistry_def s
    by (auto simp: emptyRegistry_def dom_def set_eq_iff image_iff)
  have b: "assetMapLower reg k \<noteq> None \<longleftrightarrow>
      (\<exists>f\<in>set assetFiles. toLowerCase (file_name f) = k \<and> \<not> isl (file_dataURL f))" for k
    using assetMapLower_foldl_dom[of emptyRegistry completed]
    unfolding reg_def buildRegistry_def s
    by (auto simp: emptyRegistry_def dom_def set_eq_iff image_iff)
  have c: "assetMap reg k = Some d \<Longrightarrow> (\<exists>f\<in>set assetFiles. file_name f = k \<and> file_dataURL f = Inr d)" for k d
    unfolding reg_def buildRegistry_def s[symmetric]
    using assetMap_foldl_val[of emptyRegistry completed k d] by (simp add: emptyRegistry_def)
  have d: "assetMapLower reg k = Some d \<Longrightarrow> (\<exists>f\<in>set assetFiles. toLowerCase (file_name f) = k \<and> file_dataURL f = Inr d)" for k d
    unfolding reg_def buildRegistry_def s[symmetric]
    using assetMapLower_foldl_val[of emptyRegistry completed k d] by (simp add: emptyRegistry_def)
  show ?thesis
    using a b c d by (intro conjI) blast+
qed


theorem registry_lenient_witness:
  "mset [exampleBroken, exampleLogo] = mset [exampleLogo, exampleBroken]
   \<and> \<not> isl (file_dataURL exampleLogo) \<and> isl (file_dataURL exampleBroken)
   \<and> assetMap (buildRegistry [exampleBroken, exampleLogo]) ''Logo.PNG'' \<noteq> None
   \<and> assetMapLower (buildRegistry [exampleBroken, exampleLogo]) (toLowerCase ''Logo.PNG'') \<noteq> None
   \<and> assetMap (buildRegistry [exampleBroken, exampleLogo]) ''broken.png'' = None
   \<and> assetMapLower (buildRegistry [exampleBroken, exampleLogo]) (toLowerCase ''broken.png'') = None"
proof -
  have h: "mset [exampleBroken, exampleLogo] = mset [exampleLogo, exampleBroken]"
    by simp
  have n: "toLowerCase ''broken.png'' \<noteq> toLowerCase ''Logo.PNG''"
    by code_simp
  show ?thesis
    using h n registry_lenient[OF h]
    by (simp add: exampleLogo_def exampleBroken_def)
qed





section \<open>Dimension extraction (fileUtils.processFiles, lines 172-197 and 335-337)\<close>

text \<open>
  The class \<open>\s\<close> on code units below 256, and the class \<open>[\s,]\<close> of the
  \<open>viewBox\<close> separators.
\<close>

definition isWhitespace :: "char \<Rightarrow> bool" where
  "isWhitespace c = (of_char c \<in> {9, 10, 11, 12, 13, 32, 160 :: nat})"

definition isSpaceOrComma :: "char \<Rightarrow> bool" where
  "isSpaceOrComma c = (isWhitespace c \<or> c = CHR '','')"

text \<open>
  \<open>split\<close> on the regular expression \<open>/[\s,]+/\<close>: a maximal run of separators is one
  cut.
\<close>

function splitRuns :: "(char \<Rightarrow> bool) \<Rightarrow> string \<Rightarrow> string list" where
  "splitRuns sep [] = [[]]"
| "splitRuns sep (c # cs) =
     (if sep c then [] # splitRuns sep (dropWhile sep cs)
      else (case splitRuns sep cs of [] \<Rightarrow> [[c]] | p # ps \<Rightarrow> (c # p) # ps))"
  by pat_completeness auto
termination
  by (relation "measure (\<lambda>(sep, s). length s)")
     (auto simp: le_imp_less_Suc length_dropWhile_le)


text \<open>
  \<open>Number\<close> and \<open>parseFloat\<close> are the host's and are the parameters \<open>toNumber\<close> and
  \<open>parseFloat\<close>. \<open>viewBoxParts\<close> is
  \<open>viewBox.split(/[\s,]+/).filter(Boolean).map(Number)\<close>.
\<close>

definition viewBoxParts :: "(string \<Rightarrow> jsnum) \<Rightarrow> string \<Rightarrow> jsnum list" where
  "viewBoxParts toNumber viewBox =
     map toNumber (filter (\<lambda>s. s \<noteq> []) (splitRuns isSpaceOrComma viewBox))"

text \<open>
  The dimension block of a document that parsed, on the root element's \<open>viewBox\<close>,
  \<open>width\<close> and \<open>height\<close> attributes as \<open>getAttribute\<close> returns them (\<open>None\<close> is
  \<open>null\<close>). \<open>width\<close> and \<open>height\<close> start at 0.
\<close>

definition extractDimensions ::
  "(string \<Rightarrow> jsnum) \<Rightarrow> (string \<Rightarrow> jsnum) \<Rightarrow> string option \<Rightarrow> string option \<Rightarrow> string option
     \<Rightarrow> jsnum \<times> jsnum" where
  "extractDimensions toNumber parseFloat viewBox wAttr hAttr =
     (let width = Num 0; height = Num 0;
          (width, height) =
            (case viewBox of
               Some vb \<Rightarrow>
                 if vb \<noteq> [] then
                   let parts = viewBoxParts toNumber vb in
                   if length parts = 4 then (parts ! 2, parts ! 3) else (width, height)
                 else (width, height)
             | None \<Rightarrow> (width, height))
      in if \<not> truthy width \<or> \<not> truthy height then
           ((case wAttr of Some a \<Rightarrow> if a \<noteq> [] then parseFloat a else width | None \<Rightarrow> width),
            (case hAttr of Some a \<Rightarrow> if a \<noteq> [] then parseFloat a else height | None \<Rightarrow> height))
         else (width, height))"

text \<open>
  The defaults applied after the \<open>try\<close> block, to the extracted pair or, when the
  document did not parse, to \<open>(0, 0)\<close>.
\<close>

definition defaultDimensions :: "jsnum \<times> jsnum \<Rightarrow> jsnum \<times> jsnum" where
  "defaultDimensions d =
     (let width = fst d; height = snd d
      in (if \<not> truthy width then Num 595 else width,
          if \<not> truthy height then Num 842 else height))"

text \<open>
  A number parser for the concrete examples: on an optional minus sign followed by
  decimal digits it is what both \<open>Number\<close> and \<open>parseFloat\<close> return; any other string
  is \<open>NaN\<close> here.
\<close>

fun digitsValue :: "string \<Rightarrow> nat \<Rightarrow> nat option" where
  "digitsValue [] acc = Some acc"
| "digitsValue (c # cs) acc =
     (let n = of_char c :: nat in
      if 48 \<le> n \<and> n \<le> 57 then digitsValue cs (10 * acc + (n - 48)) else None)"

definition parseInteger :: "string \<Rightarrow> jsnum" where
  "parseInteger s =
     (case s of
        [] \<Rightarrow> NaN
      | c # cs \<Rightarrow>
          if c = CHR ''-'' \<and> cs \<noteq> [] then
            (case digitsValue cs 0 of Some n \<Rightarrow> Num (- real n) | None \<Rightarrow> NaN)
          else (case digitsValue (c # cs) 0 of Some n \<Rightarrow> Num (real n) | None \<Rightarrow> NaN))"


subsection \<open>Precedence of the bounding box\<close>

lemma viewBoxParts_empty: "viewBoxParts toNumber [] = []"
  by (simp add: viewBoxParts_def)

text \<open>
  C4, as the code has it. The \<open>viewBox\<close> decides when it has exactly four components
  and its width and height are both truthy, that is neither zero nor \<open>NaN\<close>: a negative
  component counts as resolved. Otherwise each of the \<open>width\<close> and \<open>height\<close> attributes
  that is present and non-empty replaces its dimension by its \<open>parseFloat\<close>, and a
  dimension left zero or \<open>NaN\<close> takes its default, 595 for the width and 842 for the
  height. A document with none of the three attributes, and one that did not parse,
  get 595 by 842.
\<close>

theorem dimension_precedence:
  fixes toNumber parseFloat :: "string \<Rightarrow> jsnum"
  defines "parts \<equiv> \<lambda>viewBox. case viewBox of Some vb \<Rightarrow> viewBoxParts toNumber vb | None \<Rightarrow> []"
  defines "dims \<equiv> \<lambda>viewBox wAttr hAttr.
             defaultDimensions (extractDimensions toNumber parseFloat viewBox wAttr hAttr)"
  defines "attrOr \<equiv> \<lambda>a v. case a of Some s \<Rightarrow> if s \<noteq> [] then parseFloat s else v | None \<Rightarrow> v"
  defines "orDefault \<equiv> \<lambda>v d. if truthy v then v else Num d"
  shows "(length (parts viewBox) = 4 \<and> truthy (parts viewBox ! 2) \<and> truthy (parts viewBox ! 3)
            \<longrightarrow> dims viewBox wAttr hAttr = (parts viewBox ! 2, parts viewBox ! 3))
       \<and> (length (parts viewBox) = 4
            \<and> \<not> (truthy (parts viewBox ! 2) \<and> truthy (parts viewBox ! 3))
            \<longrightarrow> dims viewBox wAttr hAttr =
                  (orDefault (attrOr wAttr (parts viewBox ! 2)) 595,
                   orDefault (attrOr hAttr (parts viewBox ! 3)) 842))
       \<and> (length (parts viewBox) \<noteq> 4
            \<longrightarrow> dims viewBox wAttr hAttr =
                  (orDefault (attrOr wAttr (Num 0)) 595, orDefault (attrOr hAttr (Num 0)) 842))
       \<and> dims None None None = (Num 595, Num 842)
       \<and> defaultDimensions (Num 0, Num 0) = (Num 595, Num 842)"
  unfolding parts_def dims_def attrOr_def orDefault_def
  by (cases viewBox; cases "the viewBox = []")
     (auto simp: extractDimensions_def defaultDimensions_def Let_def viewBoxParts_empty
           split: option.splits)

theorem dimension_precedence_witness:
  "length (viewBoxParts parseInteger ''0 0 100 200'') = 4
   \<and> defaultDimensions (extractDimensions parseInteger parseInteger
        (Some ''0 0 100 200'') (Some ''50'') (Some ''60'')) = (Num 100, Num 200)
   \<and> \<not> truthy (viewBoxParts parseInteger ''0,0,0,0'' ! 2)
   \<and> defaultDimensions (extractDimensions parseInteger parseInteger
        (Some ''0,0,0,0'') (Some ''50'') None) = (Num 50, Num 842)
   \<and> length (viewBoxParts parseInteger ''0 0 100'') \<noteq> 4
   \<and> defaultDimensions (extractDimensions parseInteger parseInteger
        (Some ''0 0 100'') None (Some ''60'')) = (Num 595, Num 60)"
proof -
  have 1: "viewBoxParts parseInteger ''0 0 100 200'' = [Num 0, Num 0, Num 100, Num 200]"
    by code_simp
  have 2: "viewBoxParts parseInteger ''0,0,0,0'' = [Num 0, Num 0, Num 0, Num 0]"
    by code_simp
  have 3: "viewBoxParts parseInteger ''0 0 100'' = [Num 0, Num 0, Num 100]"
    by code_simp
  have 4: "parseInteger ''50'' = Num 50" "parseInteger ''60'' = Num 60"
    by code_simp+
  show ?thesis
    using dimension_precedence[of parseInteger "Some ''0 0 100 200''" parseInteger "Some ''50''" "Some ''60''"]
          dimension_precedence[of parseInteger "Some ''0,0,0,0''" parseInteger "Some ''50''" None]
          dimension_precedence[of parseInteger "Some ''0 0 100''" parseInteger None "Some ''60''"]
    by (simp add: 1 2 3 4)
qed

text \<open>
  The claim as stated, with a fall-back for non-positive components, fails on a negative
  one: with \<open>viewBox="0 0 -5 -5" width="100" height="200"\<close> the page is -5 by -5, not
  100 by 200.
\<close>

theorem dimension_negative_viewBox:
  "defaultDimensions (extractDimensions parseInteger parseInteger
      (Some ''0 0 -5 -5'') (Some ''100'') (Some ''200'')) = (Num (- 5), Num (- 5))
   \<and> defaultDimensions (extractDimensions parseInteger parseInteger
      (Some ''0 0 -5 -5'') (Some ''100'') (Some ''200''))
      \<noteq> (parseInteger ''100'', parseInteger ''200'')"
  by code_simp



section \<open>Page sequencer (fileUtils.processFiles, lines 349-353)\<close>

text \<open>
  \<open>Array.prototype.sort\<close> with a comparator: the sort is stable, so on a consistent
  comparator its result is the one of the stable insertion sort below, where an element
  goes before the first element it does not exceed.
\<close>

fun insertSorted :: "('a \<Rightarrow> 'a \<Rightarrow> int) \<Rightarrow> 'a \<Rightarrow> 'a list \<Rightarrow> 'a list" where
  "insertSorted cmp x [] = [x]"
| "insertSorted cmp x (y # ys) =
     (if cmp x y \<le> 0 then x # y # ys else y # insertSorted cmp x ys)"

fun sortWith :: "('a \<Rightarrow> 'a \<Rightarrow> int) \<Rightarrow> 'a list \<Rightarrow> 'a list" where
  "sortWith cmp [] = []"
| "sortWith cmp (x # xs) = insertSorted cmp x (sortWith cmp xs)"

text \<open>
  The sort by name and the final \<open>map\<close> that writes each page's position into its
  \<open>index\<close>. \<open>localeCompare\<close> with the options \<open>numeric\<close> and \<open>sensitivity: 'base'\<close> is
  the host's collation and is the parameter \<open>localeCompare\<close>: negative, zero or positive.
\<close>

definition sequencePages :: "(string \<Rightarrow> string \<Rightarrow> int) \<Rightarrow> ProcessedPage list \<Rightarrow> ProcessedPage list" where
  "sequencePages localeCompare processedPages =
     (let sorted = sortWith (\<lambda>a b. localeCompare (name a) (name b)) processedPages
      in map (\<lambda>(page, i). page\<lparr>index := i\<rparr>) (zip sorted [0..<length sorted]))"

text \<open>
  Modelled from the spec: the host's collation is not part of the repository. This
  comparator has what the spec says of it, numeric substrings compared by numeric value
  and letters compared without case: a name is read as a list of keys, a run of digits
  as one key that carries its value and any other character as its lowercase code, and
  names compare as their key lists do.
\<close>

definition isDigit :: "char \<Rightarrow> bool" where
  "isDigit c = (48 \<le> (of_char c :: nat) \<and> (of_char c :: nat) \<le> 57)"

definition digitsToNat :: "string \<Rightarrow> nat" where
  "digitsToNat ds = foldl (\<lambda>acc c. 10 * acc + (of_char c - 48)) 0 ds"

function naturalKey :: "string \<Rightarrow> (nat \<times> nat) list" where
  "naturalKey [] = []"
| "naturalKey (c # cs) =
     (if isDigit c then
        (48, digitsToNat (takeWhile isDigit (c # cs))) # naturalKey (dropWhile isDigit cs)
      else (of_char (toLowerChar c), 0) # naturalKey cs)"
  by pat_completeness auto
termination
  by (relation "measure length") (auto simp: le_imp_less_Suc length_dropWhile_le)

definition naturalCompare :: "string \<Rightarrow> string \<Rightarrow> int" where
  "naturalCompare a b =
     (if naturalKey a < naturalKey b then - 1 else if naturalKey a = naturalKey b then 0 else 1)"

definition svgPage :: "string \<Rightarrow> ProcessedPage" where
  "svgPage n = \<lparr>page_id = [], name = n, url = [], index = 0,
                 width = Num 595, height = Num 842\<rparr>"


subsection \<open>Sorted order and dense indices\<close>

lemma set_insertSorted: "set (insertSorted cmp x xs) = insert x (set xs)"
  by (induction xs) auto

lemma mset_insertSorted: "mset (insertSorted cmp x xs) = add_mset x (mset xs)"
  by (induction xs) auto

lemma mset_sortWith: "mset (sortWith cmp xs) = mset xs"
  by (induction xs) (auto simp: mset_insertSorted)

lemma length_sortWith: "length (sortWith cmp xs) = length xs"
  by (metis mset_sortWith size_mset)

lemma sorted_insertSorted:
  assumes total: "\<And>a b. cmp a b \<le> 0 \<or> cmp b a \<le> 0"
      and trans: "\<And>a b c. cmp a b \<le> 0 \<Longrightarrow> cmp b c \<le> 0 \<Longrightarrow> cmp a c \<le> 0"
  shows "sorted_wrt (\<lambda>a b. cmp a b \<le> 0) xs \<Longrightarrow> sorted_wrt (\<lambda>a b. cmp a b \<le> 0) (insertSorted cmp x xs)"
proof (induction xs)
  case Nil
  then show ?case by simp
next
  case (Cons y ys)
  show ?case
  proof (cases "cmp x y \<le> 0")
    case True
    with Cons.prems trans show ?thesis by auto
  next
    case False
    with total have "cmp y x \<le> 0" by blast
    with False Cons show ?thesis by (auto simp: set_insertSorted)
  qed
qed

lemma sorted_sortWith:
  assumes "\<And>a b. cmp a b \<le> 0 \<or> cmp b a \<le> 0"
      and "\<And>a b c. cmp a b \<le> 0 \<Longrightarrow> cmp b c \<le> 0 \<Longrightarrow> cmp a c \<le> 0"
  shows "sorted_wrt (\<lambda>a b. cmp a b \<le> 0) (sortWith cmp xs)"
  by (induction xs) (auto intro: sorted_insertSorted[OF assms])


lemma map_reindex:
  assumes "\<And>p i. f (p\<lparr>index := i\<rparr>) = f p"
  shows "map f (map (\<lambda>(page, i). page\<lparr>index := i\<rparr>) (zip xs [0..<length xs])) = map f xs"
  by (rule nth_equalityI) (auto simp: assms)

lemma index_reindex:
  "map index (map (\<lambda>(page, i). page\<lparr>index := i\<rparr>) (zip xs [0..<length xs])) = [0..<length xs]"
  by (rule nth_equalityI) auto

lemma naturalCompare_total: "naturalCompare a b \<le> 0 \<or> naturalCompare b a \<le> 0"
  by (auto simp: naturalCompare_def)

lemma naturalCompare_trans:
  "naturalCompare a b \<le> 0 \<Longrightarrow> naturalCompare b c \<le> 0 \<Longrightarrow> naturalCompare a c \<le> 0"
  by (auto simp: naturalCompare_def split: if_splits)

text \<open>
  C3. For a collation that is a total preorder, the sequenced pages are ordered by name
  under it, their indices are exactly 0, 1, ..., N-1 in that order, and they are the
  input pages, nothing but the index changed. With the natural ordering, the pages
  named page10.svg, page2.svg, page1.svg come out as page1.svg, page2.svg, page10.svg
  with indices 0, 1, 2.
\<close>

theorem page_sequencer:
  fixes localeCompare :: "string \<Rightarrow> string \<Rightarrow> int" and pages :: "ProcessedPage list"
  assumes total: "\<And>a b. localeCompare a b \<le> 0 \<or> localeCompare b a \<le> 0"
      and trans: "\<And>a b c. localeCompare a b \<le> 0 \<Longrightarrow> localeCompare b c \<le> 0
                    \<Longrightarrow> localeCompare a c \<le> 0"
  defines "out \<equiv> sequencePages localeCompare pages"
  shows "sorted_wrt (\<lambda>p q. localeCompare (name p) (name q) \<le> 0) out
       \<and> map index out = [0..<length pages]
       \<and> mset (map (\<lambda>p. p\<lparr>index := 0\<rparr>) out) = mset (map (\<lambda>p. p\<lparr>index := 0\<rparr>) pages)
       \<and> map name (sequencePages naturalCompare
            [svgPage ''page10.svg'', svgPage ''page2.svg'', svgPage ''page1.svg''])
          = [''page1.svg'', ''page2.svg'', ''page10.svg'']
       \<and> map index (sequencePages naturalCompare
            [svgPage ''page10.svg'', svgPage ''page2.svg'', svgPage ''page1.svg''])
          = [0, 1, 2]"
proof (intro conjI)
  let ?cmp = "\<lambda>a b. localeCompare (name a) (name b)"
  let ?sorted = "sortWith ?cmp pages"
  have s: "sorted_wrt (\<lambda>a b. ?cmp a b \<le> 0) ?sorted"
    by (rule sorted_sortWith) (use total trans in blast)+
  have n: "map name out = map name ?sorted"
    unfolding out_def sequencePages_def Let_def by (rule map_reindex) simp
  have "sorted_wrt (\<lambda>a b. localeCompare a b \<le> 0) (map name ?sorted)"
    using s by (simp add: sorted_wrt_map)
  then show "sorted_wrt (\<lambda>p q. localeCompare (name p) (name q) \<le> 0) out"
    unfolding n[symmetric] by (simp add: sorted_wrt_map)
  show "map index out = [0..<length pages]"
    unfolding out_def sequencePages_def Let_def index_reindex by (simp add: length_sortWith)
  have "map (\<lambda>p. p\<lparr>index := 0\<rparr>) out = map (\<lambda>p. p\<lparr>index := 0\<rparr>) ?sorted"
    unfolding out_def sequencePages_def Let_def by (rule map_reindex) simp
  then show "mset (map (\<lambda>p. p\<lparr>index := 0\<rparr>) out) = mset (map (\<lambda>p. p\<lparr>index := 0\<rparr>) pages)"
    by (simp add: mset_sortWith)
  show "map name (sequencePages naturalCompare
            [svgPage ''page10.svg'', svgPage ''page2.svg'', svgPage ''page1.svg''])
          = [''page1.svg'', ''page2.svg'', ''page10.svg'']"
    by code_simp
  show "map index (sequencePages naturalCompare
            [svgPage ''page10.svg'', svgPage ''page2.svg'', svgPage ''page1.svg''])
          = [0, 1, 2]"
    by code_simp
qed

theorem page_sequencer_witness:
  "sorted_wrt (\<lambda>p q. naturalCompare (name p) (name q) \<le> 0)
     (sequencePages naturalCompare [svgPage ''b2.svg'', svgPage ''B10.svg'', svgPage ''a.svg''])
   \<and> map index
     (sequencePages naturalCompare [svgPage ''b2.svg'', svgPage ''B10.svg'', svgPage ''a.svg''])
     = [0, 1, 2]"
  using page_sequencer[of naturalCompare "[svgPage ''b2.svg'', svgPage ''B10.svg'', svgPage ''a.svg'']",
          OF naturalCompare_total naturalCompare_trans]
  by simp


section \<open>Traversal (fileUtils.readAllEntries, fileUtils.traverseFileTree)\<close>

text \<open>
  An entry of the dropped tree. A file entry carries what \<open>fileEntry.file\<close> calls back
  with; a directory entry carries its reader, which is the list of the answers it gives
  to successive \<open>readEntries\<close> calls, a failure or a batch of entries. A reader whose
  list is used up answers with the empty batch. An entry that is neither a file nor a
  directory is \<open>OtherEntry\<close>.
\<close>

datatype FileSystemEntry =
    FileEntry "error + File"
  | DirectoryEntry "response list"
  | OtherEntry
and response = Failure error | Batch "FileSystemEntry list"

text \<open>
  \<open>readAllEntries\<close>: batches are requested and accumulated until one is empty; a failed
  request rejects the whole listing.
\<close>

fun readAllEntries :: "response list \<Rightarrow> error + FileSystemEntry list" where
  "readAllEntries [] = Inr []"
| "readAllEntries (Failure err # rest) = Inl err"
| "readAllEntries (Batch readEntries # rest) =
     (if length readEntries > 0 then
        (case readAllEntries rest of
           Inl err \<Rightarrow> Inl err
         | Inr entries \<Rightarrow> Inr (readEntries @ entries))
      else Inr [])"

text \<open>
  The loop \<open>for (const childEntry of entries) files.push(...await traverseFileTree(childEntry))\<close>
  stops at the first child whose traversal rejects: \<open>collect\<close> of the children's results.
\<close>

fun collect :: "(error + 'a list) list \<Rightarrow> error + 'a list" where
  "collect [] = Inr []"
| "collect (Inl err # rest) = Inl err"
| "collect (Inr xs # rest) =
     (case collect rest of Inl err \<Rightarrow> Inl err | Inr ys \<Rightarrow> Inr (xs @ ys))"

lemma size_member: "e \<in> set xs \<Longrightarrow> size e \<le> size_list size xs"
  by (rule size_list_estimation'[where f = size]) auto

lemma readAllEntries_size:
  "readAllEntries rs = Inr entries \<Longrightarrow> e \<in> set entries \<Longrightarrow> size e < Suc (size_list size rs)"
proof (induction rs arbitrary: entries rule: readAllEntries.induct)
  case 1
  then show ?case by simp
next
  case (2 err rest)
  then show ?case by simp
next
  case (3 readEntries rest)
  show ?case
  proof (cases "e \<in> set readEntries")
    case True
    then have "size e \<le> size_list size readEntries" by (rule size_member)
    then show ?thesis by simp
  next
    case False
    with 3 show ?thesis by (auto split: if_splits sum.splits)
  qed
qed

function traverseFileTree :: "FileSystemEntry \<Rightarrow> error + File list" where
  "traverseFileTree (FileEntry r) =
     (case r of Inl err \<Rightarrow> Inl err | Inr file \<Rightarrow> Inr [file])"
| "traverseFileTree (DirectoryEntry dirReader) =
     (case readAllEntries dirReader of
        Inl err \<Rightarrow> Inl err
      | Inr entries \<Rightarrow> collect (map traverseFileTree entries))"
| "traverseFileTree OtherEntry = Inr []"
  by pat_completeness auto
termination
  by (relation "measure size") (auto dest: readAllEntries_size)



text \<open>
  The answers of a reader that \<open>readAllEntries\<close> gets to see: those up to the first
  failure or empty batch.
\<close>

fun requested :: "response list \<Rightarrow> response list" where
  "requested [] = []"
| "requested (Failure err # rest) = [Failure err]"
| "requested (Batch entries # rest) =
     (if entries = [] then [Batch entries] else Batch entries # requested rest)"

text \<open>
  A failure somewhere in a dropped tree: a file entry that cannot be read, a directory
  whose listing fails, or a failure in an entry that a listing returned.
\<close>

inductive hasFailure :: "FileSystemEntry \<Rightarrow> bool" where
  fileFails: "hasFailure (FileEntry (Inl err))"
| listingFails: "Failure err \<in> set (requested dirReader) \<Longrightarrow> hasFailure (DirectoryEntry dirReader)"
| childFails: "Batch entries \<in> set (requested dirReader) \<Longrightarrow> childEntry \<in> set entries
          \<Longrightarrow> hasFailure childEntry \<Longrightarrow> hasFailure (DirectoryEntry dirReader)"

subsection \<open>Strict traversal\<close>

lemma collect_isl: "isl (collect rs) \<longleftrightarrow> (\<exists>r\<in>set rs. isl r)"
  by (induction rs rule: collect.induct) (auto split: sum.splits)

lemma readAllEntries_isl:
  "isl (readAllEntries rs) \<longleftrightarrow> (\<exists>err. Failure err \<in> set (requested rs))"
  by (induction rs rule: readAllEntries.induct) (auto split: sum.splits)

lemma readAllEntries_set:
  "readAllEntries rs = Inr entries \<Longrightarrow>
   e \<in> set entries \<longleftrightarrow> (\<exists>es. Batch es \<in> set (requested rs) \<and> e \<in> set es)"
  by (induction rs arbitrary: entries rule: readAllEntries.induct)
     (auto split: sum.splits if_splits)

lemma traverse_fails_if: "hasFailure entry \<Longrightarrow> isl (traverseFileTree entry)"
proof (induction rule: hasFailure.induct)
  case (fileFails err)
  then show ?case by simp
next
  case (listingFails err dirReader)
  then have "isl (readAllEntries dirReader)" by (auto simp: readAllEntries_isl)
  then show ?case by (auto split: sum.splits)
next
  case (childFails entries dirReader childEntry)
  show ?case
  proof (cases "readAllEntries dirReader")
    case (Inl a)
    then show ?thesis by simp
  next
    case (Inr all)
    with childFails have "childEntry \<in> set all" by (auto simp: readAllEntries_set)
    with childFails Inr show ?thesis by (auto simp: collect_isl)
  qed
qed

lemma traverse_fails_only_if: "isl (traverseFileTree entry) \<Longrightarrow> hasFailure entry"
proof (induction entry rule: traverseFileTree.induct)
  case (1 r)
  then show ?case by (cases r) (auto intro: hasFailure.fileFails)
next
  case (2 dirReader)
  show ?case
  proof (cases "readAllEntries dirReader")
    case (Inl err)
    then have "isl (readAllEntries dirReader)" by simp
    then show ?thesis by (auto simp: readAllEntries_isl intro: hasFailure.listingFails)
  next
    case (Inr entries)
    with 2 obtain c where c: "c \<in> set entries" "isl (traverseFileTree c)"
      by (auto simp: collect_isl)
    with 2 Inr have "hasFailure c" by blast
    moreover from c Inr obtain es where "Batch es \<in> set (requested dirReader)" "c \<in> set es"
      by (auto simp: readAllEntries_set)
    ultimately show ?thesis by (blast intro: hasFailure.childFails)
  qed
next
  case 3
  then show ?case by simp
qed



section \<open>Reference resolution (fileUtils.processFiles, lines 199-238 and 319-330)\<close>

subsection \<open>The document tree\<close>

definition XLINK_NS :: string where
  "XLINK_NS = ''http://www.w3.org/1999/xlink''"

definition SVG_NS :: string where
  "SVG_NS = ''http://www.w3.org/2000/svg''"

text \<open>
  An attribute of the host's tree: namespace, prefix, local name and value. Its qualified
  name is the local name, with the prefix and a colon in front when it has a prefix.
\<close>

datatype attr =
  Attr (attrNamespace: "string option") (attrPrefix: "string option") (attrLocalName: string)
       (attrValue: string)

text \<open>
  A node: an element with its qualified name, attributes and children, a text node
  (\<open>nodeType\<close> 3) with its content as UTF-16 code units, or a node of another kind
  (comment, CDATA section, processing instruction) with its \<open>nodeType\<close>.
\<close>

type_synonym jstext = "16 word list"

datatype node =
    Element string "attr list" "node list"
  | Text jstext
  | Other nat

text \<open>
  \<open>getAttribute\<close> reads the first attribute with the given qualified name,
  \<open>getAttributeNS\<close> the first one with the given namespace and local name; \<open>None\<close> is
  \<open>null\<close>.
\<close>

definition qualifiedName :: "attr \<Rightarrow> string" where
  "qualifiedName a =
     (case attrPrefix a of None \<Rightarrow> attrLocalName a
      | Some p \<Rightarrow> p @ '':'' @ attrLocalName a)"

definition hasQualifiedName :: "string \<Rightarrow> attr \<Rightarrow> bool" where
  "hasQualifiedName qualifiedName' a = (qualifiedName a = qualifiedName')"

definition hasExpandedName :: "string \<Rightarrow> string \<Rightarrow> attr \<Rightarrow> bool" where
  "hasExpandedName namespace localName a =
     (attrNamespace a = Some namespace \<and> attrLocalName a = localName)"

definition getAttribute :: "attr list \<Rightarrow> string \<Rightarrow> string option" where
  "getAttribute attrs qualifiedName' =
     map_option attrValue (find (hasQualifiedName qualifiedName') attrs)"

definition getAttributeNS :: "attr list \<Rightarrow> string \<Rightarrow> string \<Rightarrow> string option" where
  "getAttributeNS attrs namespace localName =
     map_option attrValue (find (hasExpandedName namespace localName) attrs)"

text \<open>
  \<open>setAttribute\<close> and \<open>setAttributeNS\<close> change the value of the attribute that the
  matching read finds and append a new attribute when there is none.
\<close>

fun changeFirst :: "(attr \<Rightarrow> bool) \<Rightarrow> string \<Rightarrow> attr list \<Rightarrow> attr list" where
  "changeFirst P v [] = []"
| "changeFirst P v (a # as) =
     (if P a then Attr (attrNamespace a) (attrPrefix a) (attrLocalName a) v # as
      else a # changeFirst P v as)"

definition setAttribute :: "attr list \<Rightarrow> string \<Rightarrow> string \<Rightarrow> attr list" where
  "setAttribute attrs qualifiedName' v =
     (if find (hasQualifiedName qualifiedName') attrs = None
      then attrs @ [Attr None None qualifiedName' v]
      else changeFirst (hasQualifiedName qualifiedName') v attrs)"

definition splitQualifiedName :: "string \<Rightarrow> string option \<times> string" where
  "splitQualifiedName q =
     (if CHR '':'' \<in> set q
      then (Some (takeWhile (\<lambda>c. c \<noteq> CHR '':'') q), tl (dropWhile (\<lambda>c. c \<noteq> CHR '':'') q))
      else (None, q))"

definition setAttributeNS :: "attr list \<Rightarrow> string \<Rightarrow> string \<Rightarrow> string \<Rightarrow> attr list" where
  "setAttributeNS attrs namespace qualifiedName' v =
     (let (p, localName) = splitQualifiedName qualifiedName' in
      if find (hasExpandedName namespace localName) attrs = None
      then attrs @ [Attr (Some namespace) p localName v]
      else changeFirst (hasExpandedName namespace localName) v attrs)"

subsection \<open>The element-attribute pass\<close>

text \<open>The closure \<open>processAttribute\<close>, on the attribute list of the element \<open>el\<close>.\<close>

definition processAttribute ::
  "(string \<Rightarrow> string option) \<Rightarrow> registry \<Rightarrow> string \<Rightarrow> string option \<Rightarrow> attr list \<Rightarrow> attr list" where
  "processAttribute decode reg attrName namespace attrs =
     (case (case namespace of Some ns \<Rightarrow> getAttributeNS attrs ns attrName
            | None \<Rightarrow> getAttribute attrs attrName) of
        None \<Rightarrow> attrs
      | Some v \<Rightarrow>
          if v = [] then attrs
          else
            let filename = getFilenameFromPath decode v in
            if filename = [] then attrs
            else
              (case attributeLookup decode reg filename of
                 None \<Rightarrow> attrs
               | Some assetUrl \<Rightarrow>
                   if assetUrl = [] then attrs
                   else
                     (case namespace of
                        Some ns \<Rightarrow>
                          if ns = XLINK_NS then setAttributeNS attrs ns ''xlink:href'' assetUrl
                          else setAttributeNS attrs ns attrName assetUrl
                      | None \<Rightarrow> setAttribute attrs attrName assetUrl)))"

text \<open>The four calls made for each element, and the loop over all elements.\<close>

definition processElement :: "(string \<Rightarrow> string option) \<Rightarrow> registry \<Rightarrow> attr list \<Rightarrow> attr list" where
  "processElement decode reg attrs =
     (let attrs = processAttribute decode reg ''href'' None attrs;
          attrs = processAttribute decode reg ''src'' None attrs;
          attrs = processAttribute decode reg ''href'' (Some XLINK_NS) attrs;
          attrs = processAttribute decode reg ''xlink:href'' None attrs
      in attrs)"

fun processResources :: "(string \<Rightarrow> string option) \<Rightarrow> registry \<Rightarrow> node \<Rightarrow> node" where
  "processResources decode reg (Element tag attrs children) =
     Element tag (processElement decode reg attrs) (map (processResources decode reg) children)"
| "processResources decode reg (Text t) = Text t"
| "processResources decode reg (Other k) = Other k"



subsection \<open>The stylesheet pass\<close>

text \<open>
  The regular expression \<open>/url\((['"]?)(.*?)\1\)/g\<close>. \<open>lazyUntil d\<close> is the lazy
  \<open>(.*?)\<close> followed by the delimiter \<open>d\<close>: the shortest run of characters other than
  line terminators after which \<open>d\<close> stands; it gives the run and what follows the
  delimiter. \<open>matchUrl\<close> is one match attempt at the start of a string: an opening quote
  is tried first as the first group, and when no closing quote and parenthesis follow on
  the line, the attempt is repeated with the empty first group. It gives the quote, the
  second group and the text after the match.
\<close>

definition isLineTerminator :: "char \<Rightarrow> bool" where
  "isLineTerminator c = (c = CHR 0x0A \<or> c = CHR 0x0D)"

definition isQuote :: "char \<Rightarrow> bool" where
  "isQuote c = (c = CHR 0x27 \<or> c = CHR 0x22)"

fun lazyUntil :: "string \<Rightarrow> string \<Rightarrow> (string \<times> string) option" where
  "lazyUntil d [] = (if d = [] then Some ([], []) else None)"
| "lazyUntil d (c # cs) =
     (if startsWith (c # cs) d then Some ([], drop (length d) (c # cs))
      else if isLineTerminator c then None
      else (case lazyUntil d cs of
              Some (u, rest) \<Rightarrow> Some (c # u, rest)
            | None \<Rightarrow> None))"

definition matchUrl :: "string \<Rightarrow> (string \<times> string \<times> string) option" where
  "matchUrl s =
     (if startsWith s ''url('' then
        let r = drop 4 s;
            unquoted = (case lazyUntil '')'' r of
                          Some (u, rest) \<Rightarrow> Some ([], u, rest)
                        | None \<Rightarrow> None)
        in (case r of
              [] \<Rightarrow> unquoted
            | c # r' \<Rightarrow>
                if isQuote c then
                  (case lazyUntil [c, CHR '')''] r' of
                     Some (u, rest) \<Rightarrow> Some ([c], u, rest)
                   | None \<Rightarrow> unquoted)
                else unquoted)
      else None)"

definition replaceUrl :: "(string \<Rightarrow> string option) \<Rightarrow> registry \<Rightarrow> string \<Rightarrow> string \<Rightarrow> string" where
  "replaceUrl decode reg quote url' =
     (let match = ''url('' @ quote @ url' @ quote @ '')'';
          filename = getFilenameFromPath decode url'
      in if filename \<noteq> [] then
           (case stylesheetLookup reg filename of
              Some assetUrl \<Rightarrow>
                if assetUrl \<noteq> [] then ''url('' @ quote @ assetUrl @ quote @ '')'' else match
            | None \<Rightarrow> match)
         else match)"

text \<open>
  The replacement callback, where \<open>match\<close> is the matched text; and \<open>replace\<close> with the
  global flag: matches are found from left to right, and the search goes on after each
  match.
\<close>

lemma lazyUntil_length: "lazyUntil d s = Some (u, rest) \<Longrightarrow> length rest \<le> length s"
  by (induction d s arbitrary: u rule: lazyUntil.induct)
     (auto split: if_splits option.splits)

lemma startsWith_append: "startsWith s p \<longleftrightarrow> (\<exists>t. s = p @ t)"
  unfolding startsWith_def
  by (metis append_eq_conv_conj append_take_drop_id)

lemma matchUrl_length:
  assumes "matchUrl s = Some (q, u, rest)"
  shows "length rest < length s"
proof -
  from assms have "startsWith s ''url(''"
    by (auto simp: matchUrl_def split: if_splits)
  then obtain t where t: "s = ''url('' @ t" by (auto simp: startsWith_append)
  then have d: "drop 4 s = t" by simp
  have "length rest \<le> length t"
    using assms unfolding matchUrl_def d Let_def
    by (auto split: if_splits option.splits list.splits dest!: lazyUntil_length)
  then show ?thesis by (simp add: t)
qed

function replaceUrls :: "(string \<Rightarrow> string option) \<Rightarrow> registry \<Rightarrow> string \<Rightarrow> string" where
  "replaceUrls decode reg [] = []"
| "replaceUrls decode reg (c # cs) =
     (case matchUrl (c # cs) of
        Some (quote, url', rest) \<Rightarrow> replaceUrl decode reg quote url' @ replaceUrls decode reg rest
      | None \<Rightarrow> c # replaceUrls decode reg cs)"
  by pat_completeness auto
termination
  by (relation "measure (\<lambda>(decode, reg, s). length s)") (auto dest: matchUrl_length)


subsection \<open>The two passes against each other\<close>

lemma lookups_agree_on_hit:
  "truthyStr (stylesheetLookup reg filename) \<Longrightarrow>
   attributeLookup decode reg filename = stylesheetLookup reg filename"
  by (auto simp: attributeLookup_def stylesheetLookup_def jsOr_def Let_def)

text \<open>
  C5. The stylesheet pass is meant to resolve a filename as the element-attribute pass
  does. It shares the filename extraction and the first two strategies, but not the
  URL-decoded ones: with an asset named \<open>a b.png\<close> registered, the reference
  \<open>a%2520b.png\<close>, whose extracted filename is \<open>a%20b.png\<close>, is resolved by the
  attribute pass through the decoded exact match and left alone by the stylesheet pass.
\<close>

theorem stylesheet_pass_skips_decoded_lookup:
  "getFilenameFromPath decodeURIComponent ''a%2520b.png'' = ''a%20b.png''
   \<and> attributeLookup decodeURIComponent (buildRegistry [exampleSpaced]) ''a%20b.png''
       = Some ''data:image/png;base64,AAAA''
   \<and> stylesheetLookup (buildRegistry [exampleSpaced]) ''a%20b.png'' = None
   \<and> processElement decodeURIComponent (buildRegistry [exampleSpaced])
         [Attr None None ''href'' ''a%2520b.png'']
       = [Attr None None ''href'' ''data:image/png;base64,AAAA'']
   \<and> replaceUrls decodeURIComponent (buildRegistry [exampleSpaced]) ''url(a%2520b.png)''
       = ''url(a%2520b.png)''"
  by code_simp

subsection \<open>Resolution on its own output\<close>


























text \<open>
  For the stylesheet pass: \<open>occurs d s\<close> says that the delimiter \<open>d\<close> stands somewhere
  on the first line of \<open>s\<close>, which is when the lazy group followed by \<open>d\<close> matches;
  \<open>noBreak s\<close> says that \<open>s\<close> holds no line terminator.
\<close>

definition occurs :: "string \<Rightarrow> string \<Rightarrow> bool" where
  "occurs d s = (lazyUntil d s \<noteq> None)"

definition noBreak :: "string \<Rightarrow> bool" where
  "noBreak s = (\<forall>c\<in>set s. \<not> isLineTerminator c)"

lemma occurs_Nil: "occurs d [] = (d = [])"
  by (simp add: occurs_def)


lemma lazyUntil_Some: "lazyUntil d s = Some p \<Longrightarrow> occurs d s"
  by (simp add: occurs_def)





lemma noBreak_simps [simp]:
  "noBreak []" "noBreak (c # cs) = (\<not> isLineTerminator c \<and> noBreak cs)"
  "noBreak (xs @ ys) = (noBreak xs \<and> noBreak ys)"
  by (auto simp: noBreak_def)












declare lazyUntil.simps [simp del]

lemma isQuote_simps [simp]:
  "isQuote c \<Longrightarrow> \<not> isLineTerminator c" "isQuote c \<Longrightarrow> c \<noteq> CHR '')''"
  "\<not> isLineTerminator (CHR '')'')"
  by (auto simp: isQuote_def isLineTerminator_def)
























lemma startsWith_take: "startsWith s p = (take (length p) s = p)"
  by (simp add: startsWith_def)















section \<open>Redaction (fileUtils.redactTextNodes, fileUtils.processFiles lines 240-311)\<close>

text \<open>
  \<open>trim\<close> on code units below 256, and the test made on each tagged element: some
  value of its comma-separated \<open>data-tags\<close> attribute, trimmed and lowercased, starts with
  \<open>redact\<close>. \<open>hasDataTags\<close> is the selector \<open>[data-tags]\<close>.
\<close>

definition trim :: "string \<Rightarrow> string" where
  "trim s = rev (dropWhile isWhitespace (rev (dropWhile isWhitespace s)))"

definition hasRedactTag :: "attr list \<Rightarrow> bool" where
  "hasRedactTag attrs =
     (let tagsStr = (case getAttribute attrs ''data-tags'' of
                       Some v \<Rightarrow> v | None \<Rightarrow> []);
          tags = map (\<lambda>s. toLowerCase (trim s)) (split (\<lambda>c. c = CHR '','') tagsStr)
      in list_ex (\<lambda>t. startsWith t ''redact'') tags)"

definition hasDataTags :: "attr list \<Rightarrow> bool" where
  "hasDataTags attrs =
     list_ex (\<lambda>a. attrNamespace a = None \<and> attrLocalName a = ''data-tags'') attrs"

text \<open>The first loop over the tagged elements, which sets \<open>needsFilter\<close>.\<close>

fun needsFilter :: "node \<Rightarrow> bool" where
  "needsFilter (Element tag attrs children) =
     ((hasDataTags attrs \<and> hasRedactTag attrs) \<or> list_ex needsFilter children)"
| "needsFilter (Text t) = False"
| "needsFilter (Other k) = False"

text \<open>
  The filter definition, with the identifier given to it, and its place: it is appended
  to the first \<open>defs\<close> element of the document (\<open>querySelector('defs')\<close>, the first
  element in document order whose local name is \<open>defs\<close>), and when there is none a new
  \<open>defs\<close> element is put in front of the root's children first.
\<close>

definition localNameOf :: "string \<Rightarrow> string" where
  "localNameOf q = snd (splitQualifiedName q)"

definition blurFilter :: "string \<Rightarrow> node" where
  "blurFilter filterId =
     Element ''filter''
       [Attr None None ''id'' filterId, Attr None None ''x'' ''-50%'',
        Attr None None ''y'' ''-50%'', Attr None None ''width'' ''200%'',
        Attr None None ''height'' ''200%'']
       [Element ''feGaussianBlur''
          [Attr None None ''in'' ''SourceGraphic'', Attr None None ''stdDeviation'' ''150'',
           Attr None None ''edgeMode'' ''duplicate''] []]"

fun appendToDefs :: "node \<Rightarrow> node \<Rightarrow> node option"
  and appendToFirstDefs :: "node \<Rightarrow> node list \<Rightarrow> node list option" where
  "appendToDefs flt (Element tag attrs children) =
     (if localNameOf tag = ''defs'' then Some (Element tag attrs (children @ [flt]))
      else map_option (Element tag attrs) (appendToFirstDefs flt children))"
| "appendToDefs flt (Text t) = None"
| "appendToDefs flt (Other k) = None"
| "appendToFirstDefs flt [] = None"
| "appendToFirstDefs flt (c # cs) =
     (case appendToDefs flt c of
        Some c' \<Rightarrow> Some (c' # cs)
      | None \<Rightarrow> map_option ((#) c) (appendToFirstDefs flt cs))"

definition ensureFilter :: "string \<Rightarrow> node \<Rightarrow> node" where
  "ensureFilter filterId doc =
     (case appendToDefs (blurFilter filterId) doc of
        Some doc' \<Rightarrow> doc'
      | None \<Rightarrow>
          (case doc of
             Element tag attrs children \<Rightarrow>
               Element tag attrs (Element ''defs'' [] [blurFilter filterId] # children)
           | _ \<Rightarrow> doc))"

text \<open>
  What is done to one image: the \<open>filter\<close> attribute is set to the reference
  \<open>url(#id)\<close> and the inline blur is appended to the \<open>style\<close> attribute.
  \<open>blurImages\<close> does it to every element named \<open>image\<close> of a subtree
  (\<open>getElementsByTagName('image')\<close> on its parent).
\<close>

definition filterReference :: "string \<Rightarrow> string" where
  "filterReference filterId = ''url(#'' @ filterId @ '')''"

definition blurImage :: "string \<Rightarrow> attr list \<Rightarrow> attr list" where
  "blurImage filterId attrs =
     (let attrs = setAttribute attrs ''filter'' (filterReference filterId);
          existingStyle = (case getAttribute attrs ''style'' of Some v \<Rightarrow> v | None \<Rightarrow> [])
      in setAttribute attrs ''style'' (existingStyle @ ''; filter: blur(150px);''))"

fun blurImages :: "string \<Rightarrow> node \<Rightarrow> node" where
  "blurImages filterId (Element tag attrs children) =
     Element tag (if tag = ''image'' then blurImage filterId attrs else attrs)
       (map (blurImages filterId) children)"
| "blurImages filterId (Text t) = Text t"
| "blurImages filterId (Other k) = Other k"

text \<open>
  \<open>redactTextNodes\<close>: the class \<open>\s\<close> on UTF-16 code units, the replacement of every
  other code unit by U+25AE, and the recursion over the child nodes. A text node with
  empty content and a node that is neither text nor element are left as they are.
\<close>

definition isWhitespaceUnit :: "16 word \<Rightarrow> bool" where
  "isWhitespaceUnit c =
     (c \<in> {0x09, 0x0A, 0x0B, 0x0C, 0x0D, 0x20, 0xA0, 0x1680, 0x2028, 0x2029, 0x202F,
            0x205F, 0x3000, 0xFEFF}
      \<or> (0x2000 \<le> c \<and> c \<le> 0x200A))"

definition redactText :: "jstext \<Rightarrow> jstext" where
  "redactText t = map (\<lambda>c. if isWhitespaceUnit c then c else 0x25AE) t"

fun redactTextNodes :: "node \<Rightarrow> node" where
  "redactTextNodes (Text t) = (if t \<noteq> [] then Text (redactText t) else Text t)"
| "redactTextNodes (Element tag attrs children) =
     Element tag attrs (map redactTextNodes children)"
| "redactTextNodes (Other k) = Other k"

text \<open>
  The body of the second loop for one redacted element: the element itself when its
  lowercased name is \<open>image\<close>, otherwise its descendant images, are blurred, then its
  text nodes are redacted.
\<close>

fun redactElement :: "string \<Rightarrow> node \<Rightarrow> node" where
  "redactElement filterId (Element tag attrs children) =
     redactTextNodes
       (if toLowerCase tag = ''image'' then Element tag (blurImage filterId attrs) children
        else Element tag attrs (map (blurImages filterId) children))"
| "redactElement filterId (Text t) = Text t"
| "redactElement filterId (Other k) = Other k"

text \<open>
  The second loop visits the tagged elements in document order, and a visit changes
  only the subtree of the visited element: the loop is the recursion \<open>redactTagged\<close>,
  which visits an element and then goes on into its children as the visit left them.
  \<open>nodeCount\<close> is the measure of that recursion; a visit keeps it.
\<close>

fun nodeCount :: "node \<Rightarrow> nat" where
  "nodeCount (Element tag attrs children) = Suc (sum_list (map nodeCount children))"
| "nodeCount (Text t) = 1"
| "nodeCount (Other k) = 1"

lemma nodeCount_blurImages [simp]: "nodeCount (blurImages f n) = nodeCount n"
  by (induction n) (simp_all add: comp_def cong: map_cong)

lemma nodeCount_redactTextNodes [simp]: "nodeCount (redactTextNodes n) = nodeCount n"
  by (induction n) (simp_all add: comp_def cong: map_cong)

lemma nodeCount_redactElement [simp]: "nodeCount (redactElement f n) = nodeCount n"
  by (cases n) (simp_all add: comp_def cong: map_cong)

lemma nodeCount_member: "c \<in> set cs \<Longrightarrow> nodeCount c \<le> sum_list (map nodeCount cs)"
  by (induction cs) auto

lemma nodeCount_child:
  assumes "(if b then redactElement f (Element tag attrs children) else Element tag attrs children)
             = Element tag' attrs' children'"
      and "c \<in> set children'"
  shows "nodeCount c < nodeCount (Element tag attrs children)"
proof -
  have "nodeCount (Element tag' attrs' children') = nodeCount (Element tag attrs children)"
    unfolding assms(1)[symmetric] by (cases b) (simp_all only: if_True if_False nodeCount_redactElement)
  then show ?thesis using nodeCount_member[OF assms(2)] by simp
qed

function redactTagged :: "string \<Rightarrow> node \<Rightarrow> node" where
  "redactTagged filterId (Element tag attrs children) =
     (case (if hasDataTags attrs \<and> hasRedactTag attrs
            then redactElement filterId (Element tag attrs children)
            else Element tag attrs children) of
        Element tag' attrs' children' \<Rightarrow>
          Element tag' attrs' (map (redactTagged filterId) children')
      | el \<Rightarrow> el)"
| "redactTagged filterId (Text t) = Text t"
| "redactTagged filterId (Other k) = Other k"
  by pat_completeness auto
termination
  by (relation "measure (\<lambda>(f, n). nodeCount n)") (auto dest: nodeCount_child)

text \<open>
  The redaction block; \<open>random\<close> is what \<open>Math.random().toString(36).substr(2, 9)\<close>
  gave.
\<close>

definition processRedactions :: "string \<Rightarrow> node \<Rightarrow> node" where
  "processRedactions random doc =
     (if needsFilter doc then
        let filterId = ''redact-blur-'' @ random
        in redactTagged filterId (ensureFilter filterId doc)
      else doc)"



fun texts :: "node \<Rightarrow> jstext list" where
  "texts (Text t) = [t]"
| "texts (Element tag attrs children) = concat (map texts children)"
| "texts (Other k) = []"






subsection \<open>Attributes read after a write\<close>















subsection \<open>What a visit does to a subtree\<close>








text \<open>What the visit of a redacted element named \<open>tag\<close> does to each of its children.\<close>

definition redactChild :: "string \<Rightarrow> string \<Rightarrow> node \<Rightarrow> node" where
  "redactChild f tag c =
     redactTextNodes (if toLowerCase tag = ''image'' then c else blurImages f c)"




lemma nodeCount_redactChild [simp]: "nodeCount (redactChild f tag c) = nodeCount c"
  by (simp add: redactChild_def)












subsection \<open>The filter definition and its place\<close>




lemma appendToDefs_not_Element:
  "appendToDefs flt n = Some n' \<Longrightarrow> \<exists>tag attrs children. n = Element tag attrs children"
  by (cases n) auto




lemma texts_blurFilter [simp]: "texts (blurFilter f) = []"
  by (simp add: blurFilter_def)




















section \<open>Ingestion (fileUtils.processFiles)\<close>

text \<open>
  The argument of \<open>processFiles\<close>. An item of a \<open>DataTransferItemList\<close> gives what
  \<open>item.webkitGetAsEntry?.()\<close> returns (\<open>None\<close> when the method is missing or returns
  \<open>null\<close>), its \<open>kind\<close>, and what \<open>getAsFile()\<close> returns.
\<close>

record DataTransferItem =
  webkitGetAsEntry :: "FileSystemEntry option"
  kind :: string
  getAsFile :: "File option"

datatype items = DataTransferItemList "DataTransferItem list" | FileList "File list"

text \<open>
  What the host supplies besides the files: \<open>decodeURIComponent\<close> (\<open>None\<close> when it
  throws), \<open>Number\<close>, \<open>parseFloat\<close>, the collation behind \<open>localeCompare\<close>, the order in
  which the asset reads complete, the parser and the serializer (\<open>None\<close> when they
  throw), and, for the document at each position of \<open>svgFiles\<close>, the suffix drawn from
  \<open>Math.random\<close>, the identifier from \<open>crypto.randomUUID\<close> and the address from
  \<open>URL.createObjectURL\<close>.
\<close>

record host =
  decode :: "string \<Rightarrow> string option"
  toNumber :: "string \<Rightarrow> jsnum"
  parseFloat :: "string \<Rightarrow> jsnum"
  localeCompare :: "string \<Rightarrow> string \<Rightarrow> int"
  completionOrder :: "File list \<Rightarrow> File list"
  parseFromString :: "string \<Rightarrow> node option"
  serializeToString :: "node \<Rightarrow> string option"
  mathRandom :: "nat \<Rightarrow> string"
  randomUUID :: "nat \<Rightarrow> string"
  createObjectURL :: "nat \<Rightarrow> string \<Rightarrow> string"

text \<open>
  Lines 118-140: the files of the items that give no entry are taken at once, then the
  entries are traversed one after the other; a file list is taken as it is.
\<close>

definition directFiles :: "DataTransferItem \<Rightarrow> File list" where
  "directFiles item =
     (case webkitGetAsEntry item of
        Some entry \<Rightarrow> []
      | None \<Rightarrow>
          if kind item = ''file'' then
            (case getAsFile item of Some file \<Rightarrow> [file] | None \<Rightarrow> [])
          else [])"

definition droppedEntries :: "DataTransferItem list \<Rightarrow> FileSystemEntry list" where
  "droppedEntries list = concat (map (\<lambda>item. case webkitGetAsEntry item of
                                                Some entry \<Rightarrow> [entry] | None \<Rightarrow> []) list)"

definition collectFiles :: "items \<Rightarrow> error + File list" where
  "collectFiles its =
     (case its of
        DataTransferItemList list \<Rightarrow>
          (let allFiles = concat (map directFiles list);
               entries = droppedEntries list
           in case collect (map traverseFileTree entries) of
                Inl err \<Rightarrow> Inl err
              | Inr files \<Rightarrow> Inr (allFiles @ files))
      | FileList files \<Rightarrow> Inr files)"

text \<open>Lines 143-147: the three filters.\<close>

definition endsWith :: "string \<Rightarrow> string \<Rightarrow> bool" where
  "endsWith s p = (length p \<le> length s \<and> drop (length s - length p) s = p)"

definition visibleFiles :: "File list \<Rightarrow> File list" where
  "visibleFiles allFiles = filter (\<lambda>f. \<not> startsWith (file_name f) ''.'') allFiles"

definition svgFiles :: "File list \<Rightarrow> File list" where
  "svgFiles allFiles =
     filter (\<lambda>f. file_type f = ''image/svg+xml'' \<or> endsWith (toLowerCase (file_name f)) ''.svg'')
       allFiles"

definition assetFiles :: "File list \<Rightarrow> File list" where
  "assetFiles allFiles =
     filter (\<lambda>f. file_type f \<noteq> ''image/svg+xml'' \<and> \<not> endsWith (toLowerCase (file_name f)) ''.svg'')
       allFiles"

text \<open>
  \<open>doc.getElementsByTagName(tag)\<close>, the elements with that qualified name in document
  order, and the attributes of \<open>doc.documentElement\<close>.
\<close>

fun getElementsByTagName :: "string \<Rightarrow> node \<Rightarrow> node list" where
  "getElementsByTagName tag (Element t attrs children) =
     (if t = tag then [Element t attrs children] else [])
     @ concat (map (getElementsByTagName tag) children)"
| "getElementsByTagName tag (Text t) = []"
| "getElementsByTagName tag (Other k) = []"

fun documentAttributes :: "node \<Rightarrow> attr list" where
  "documentAttributes (Element t attrs children) = attrs"
| "documentAttributes (Text t) = []"
| "documentAttributes (Other k) = []"

text \<open>
  Lines 172-346, the body of the loop for the document at position \<open>i\<close> once its
  content was read. Inside the \<open>try\<close> block \<open>content\<close> is written last, so when the
  serializer throws the content stays what was read and the dimensions are those
  extracted; when the parser throws, or the parsed document holds a \<open>parsererror\<close>
  element, both dimensions stay 0.
\<close>

definition processDocument :: "host \<Rightarrow> registry \<Rightarrow> nat \<Rightarrow> File \<Rightarrow> string \<Rightarrow> ProcessedPage" where
  "processDocument h reg i file content =
     (let (content, dims) =
            (case parseFromString h content of
               Some doc \<Rightarrow>
                 if length (getElementsByTagName ''parsererror'' doc) = 0 then
                   (let svgElement = documentAttributes doc;
                        dims = extractDimensions (toNumber h) (parseFloat h)
                                 (getAttribute svgElement ''viewBox'')
                                 (getAttribute svgElement ''width'')
                                 (getAttribute svgElement ''height'');
                        doc = processResources (decode h) reg doc;
                        doc = processRedactions (mathRandom h i) doc
                    in case serializeToString h doc of
                         Some serialized \<Rightarrow> (serialized, dims)
                       | None \<Rightarrow> (content, dims))
                 else (content, (Num 0, Num 0))
             | None \<Rightarrow> (content, (Num 0, Num 0)));
          content = replaceUrls (decode h) reg content;
          dims = defaultDimensions dims
      in \<lparr>page_id = randomUUID h i, name = file_name file,
          url = createObjectURL h i content, index = 0,
          width = fst dims, height = snd dims\<rparr>)"

text \<open>
  The loop over \<open>svgFiles\<close>: \<open>await file.text()\<close> stands outside the \<open>try\<close> block, so a
  rejected read rejects \<open>processFiles\<close>.
\<close>

fun processDocuments :: "host \<Rightarrow> registry \<Rightarrow> nat \<Rightarrow> File list \<Rightarrow> error + ProcessedPage list" where
  "processDocuments h reg i [] = Inr []"
| "processDocuments h reg i (file # rest) =
     (case file_text file of
        Inl err \<Rightarrow> Inl err
      | Inr content \<Rightarrow>
          (case processDocuments h reg (Suc i) rest of
             Inl err \<Rightarrow> Inl err
           | Inr processedPages \<Rightarrow> Inr (processDocument h reg i file content # processedPages)))"

definition processFiles :: "host \<Rightarrow> items \<Rightarrow> error + ProcessedPage list" where
  "processFiles h its =
     (case collectFiles its of
        Inl err \<Rightarrow> Inl err
      | Inr allFiles \<Rightarrow>
          (let allFiles = visibleFiles allFiles;
               reg = buildRegistry (completionOrder h (assetFiles allFiles))
           in case processDocuments h reg 0 (svgFiles allFiles) of
                Inl err \<Rightarrow> Inl err
              | Inr processedPages \<Rightarrow> Inr (sequencePages (localeCompare h) processedPages)))"

text \<open>
  A host for the examples: the ASCII decoder, the integer parser, the natural
  comparator, reads that complete in the order they were started, a parser that knows
  one document, and counters for the generated names.
\<close>

definition exampleHost :: host where
  "exampleHost =
     \<lparr>decode = decodeURIComponent, toNumber = parseInteger, parseFloat = parseInteger,
      localeCompare = naturalCompare, completionOrder = (\<lambda>files. files),
      parseFromString = (\<lambda>content. if content = ''<svg/>'' then Some (Element ''svg'' [] []) else None),
      serializeToString = (\<lambda>doc. if doc = Element ''svg'' [] [] then Some ''<svg/>'' else None),
      mathRandom = (\<lambda>i. replicate (Suc i) CHR ''a''),
      randomUUID = (\<lambda>i. replicate (Suc i) CHR ''u''),
      createObjectURL = (\<lambda>i content. ''blob:'' @ replicate (Suc i) CHR ''b'')\<rparr>"

definition examplePageFile :: "string \<Rightarrow> File" where
  "examplePageFile fileName =
     \<lparr>file_name = fileName, file_type = ''image/svg+xml'',
      file_dataURL = Inl ReadError, file_text = Inr ''<svg/>''\<rparr>"

definition exampleUnreadable :: File where
  "exampleUnreadable =
     \<lparr>file_name = ''page2.svg'', file_type = '''',
      file_dataURL = Inl ReadError, file_text = Inl ReadError\<rparr>"

text \<open>
  A dropped folder with one page and a subfolder whose second listing request fails,
  and a selection of two documents of which the second cannot be read.
\<close>

definition exampleSubfolder :: FileSystemEntry where
  "exampleSubfolder =
     DirectoryEntry [Batch [FileEntry (Inr (examplePageFile ''page3.svg''))], Failure ListingError]"

definition exampleFolder :: FileSystemEntry where
  "exampleFolder =
     DirectoryEntry
       [Batch [FileEntry (Inr (examplePageFile ''page1.svg'')), exampleSubfolder], Batch []]"

definition exampleDrop :: items where
  "exampleDrop =
     DataTransferItemList
       [\<lparr>webkitGetAsEntry = Some exampleFolder, kind = ''file'', getAsFile = None\<rparr>]"

definition exampleSelection :: items where
  "exampleSelection = FileList [examplePageFile ''page1.svg'', exampleUnreadable]"

definition exampleGoodSelection :: items where
  "exampleGoodSelection = FileList [examplePageFile ''page10.svg'', examplePageFile ''page2.svg'']"

subsection \<open>Fatal errors\<close>

lemma processDocuments_isl:
  "isl (processDocuments h reg i files) \<longleftrightarrow> (\<exists>file\<in>set files. isl (file_text file))"
proof (induction files arbitrary: i)
  case Nil
  then show ?case by simp
next
  case (Cons f rest)
  show ?case
  proof (cases "file_text f")
    case (Inl err)
    then show ?thesis by simp
  next
    case (Inr content)
    have "isl (processDocuments h reg i (f # rest)) \<longleftrightarrow>
          isl (processDocuments h reg (Suc i) rest)"
      using Inr by (cases "processDocuments h reg (Suc i) rest") simp_all
    then show ?thesis using Inr Cons.IH[of "Suc i"] by simp
  qed
qed

lemma traverse_fails_iff: "isl (traverseFileTree entry) \<longleftrightarrow> hasFailure entry"
  using traverse_fails_if traverse_fails_only_if by blast

lemma collectFiles_isl:
  "isl (collectFiles its) \<longleftrightarrow>
     (\<exists>list entry. its = DataTransferItemList list \<and> entry \<in> set (droppedEntries list)
        \<and> hasFailure entry)"
proof (cases its)
  case (DataTransferItemList list)
  have "isl (collectFiles its) \<longleftrightarrow> isl (collect (map traverseFileTree (droppedEntries list)))"
    using DataTransferItemList
    by (cases "collect (map traverseFileTree (droppedEntries list))")
       (simp_all add: collectFiles_def Let_def)
  then show ?thesis
    using DataTransferItemList by (auto simp: collect_isl traverse_fails_iff)
next
  case (FileList files)
  then show ?thesis by (simp add: collectFiles_def)
qed

lemma processFiles_isl:
  "isl (processFiles h its) \<longleftrightarrow>
     isl (collectFiles its)
     \<or> (\<exists>allFiles file. collectFiles its = Inr allFiles
           \<and> file \<in> set (svgFiles (visibleFiles allFiles)) \<and> isl (file_text file))"
proof (cases "collectFiles its")
  case (Inl err)
  then show ?thesis by (simp add: processFiles_def)
next
  case (Inr allFiles)
  have "isl (processFiles h its) \<longleftrightarrow>
        isl (processDocuments h
               (buildRegistry (completionOrder h (assetFiles (visibleFiles allFiles)))) 0
               (svgFiles (visibleFiles allFiles)))"
    using Inr by (simp add: processFiles_def Let_def split: sum.splits)
  then show ?thesis using Inr by (auto simp: processDocuments_isl)
qed

text \<open>These are the only ways in which the ingestion fails.\<close>

lemma processFiles_fails_only_if:
  assumes "processFiles h its = Inl err"
  shows "(\<exists>list entry. its = DataTransferItemList list \<and> entry \<in> set (droppedEntries list)
            \<and> hasFailure entry)
         \<or> (\<exists>allFiles file. collectFiles its = Inr allFiles
               \<and> file \<in> set (svgFiles (visibleFiles allFiles)) \<and> isl (file_text file))"
proof -
  from assms have "isl (processFiles h its)" by simp
  then show ?thesis unfolding processFiles_isl collectFiles_isl .
qed

text \<open>
  C7. Whenever a dropped entry holds a failure, that is a file entry that cannot be
  read or a directory listing that fails, at any depth, or whenever the text of one of
  the documents cannot be read, \<open>processFiles\<close> rejects with an error: its result is no
  page list, neither the full one nor a part of it.
\<close>

theorem fatal_error_atomicity:
  assumes "(\<exists>list entry. its = DataTransferItemList list \<and> entry \<in> set (droppedEntries list)
              \<and> hasFailure entry)
           \<or> (\<exists>allFiles file. collectFiles its = Inr allFiles
                 \<and> file \<in> set (svgFiles (visibleFiles allFiles)) \<and> isl (file_text file))"
  shows "\<exists>err. processFiles h its = Inl err"
proof -
  from assms have "isl (processFiles h its)" unfolding processFiles_isl collectFiles_isl .
  then show ?thesis by (cases "processFiles h its") auto
qed

text \<open>The three examples: a failed listing, a failed read, and a selection that loads.\<close>

lemma example_ingestions:
  "processFiles exampleHost exampleDrop = Inl ListingError"
  "processFiles exampleHost exampleSelection = Inl ReadError"
  "processFiles exampleHost exampleGoodSelection =
     Inr [\<lparr>page_id = ''uu'', name = ''page2.svg'', url = ''blob:bb'', index = 0,
            width = Num 595, height = Num 842\<rparr>,
          \<lparr>page_id = ''u'', name = ''page10.svg'', url = ''blob:b'', index = 1,
            width = Num 595, height = Num 842\<rparr>]"
  by code_simp+

theorem fatal_error_atomicity_witness:
  "exampleFolder \<in> set (droppedEntries
       [\<lparr>webkitGetAsEntry = Some exampleFolder, kind = ''file'', getAsFile = None\<rparr>])
   \<and> hasFailure exampleFolder
   \<and> (\<exists>err. processFiles exampleHost exampleDrop = Inl err)
   \<and> exampleUnreadable
        \<in> set (svgFiles (visibleFiles [examplePageFile ''page1.svg'', exampleUnreadable]))
   \<and> isl (file_text exampleUnreadable)
   \<and> (\<exists>err. processFiles exampleHost exampleSelection = Inl err)"
proof -
  have d: "exampleDrop = DataTransferItemList
             [\<lparr>webkitGetAsEntry = Some exampleFolder, kind = ''file'', getAsFile = None\<rparr>]"
    by (simp add: exampleDrop_def)
  have m: "exampleFolder \<in> set (droppedEntries
             [\<lparr>webkitGetAsEntry = Some exampleFolder, kind = ''file'', getAsFile = None\<rparr>])"
    by (simp add: droppedEntries_def)
  have "hasFailure exampleSubfolder"
    unfolding exampleSubfolder_def by (rule hasFailure.listingFails) simp
  then have f: "hasFailure exampleFolder"
    unfolding exampleFolder_def
    by (rule hasFailure.childFails[rotated 2,
          where entries = "[FileEntry (Inr (examplePageFile ''page1.svg'')), exampleSubfolder]"])
       simp_all
  have c: "collectFiles exampleSelection = Inr [examplePageFile ''page1.svg'', exampleUnreadable]"
    by (simp add: collectFiles_def exampleSelection_def)
  have s: "exampleUnreadable
        \<in> set (svgFiles (visibleFiles [examplePageFile ''page1.svg'', exampleUnreadable]))"
    by code_simp
  have r: "isl (file_text exampleUnreadable)"
    by (simp add: exampleUnreadable_def)
  from d m f have "\<exists>err. processFiles exampleHost exampleDrop = Inl err"
    by (intro fatal_error_atomicity) blast
  moreover from c s r have "\<exists>err. processFiles exampleHost exampleSelection = Inl err"
    by (intro fatal_error_atomicity) blast
  ultimately show ?thesis using m f s r by blast
qed

section \<open>Resolution run twice (fileUtils.processFiles, lines 172-330)\<close>

text \<open>
  The content that \<open>processDocument\<close> hands to \<open>new Blob\<close>: what lines 172-330 make of
  the content that was read.
\<close>

definition transformedContent :: "host \<Rightarrow> registry \<Rightarrow> nat \<Rightarrow> string \<Rightarrow> string" where
  "transformedContent h reg i content =
     (let content =
            (case parseFromString h content of
               Some doc \<Rightarrow>
                 if length (getElementsByTagName ''parsererror'' doc) = 0 then
                   (let doc = processResources (decode h) reg doc;
                        doc = processRedactions (mathRandom h i) doc
                    in case serializeToString h doc of
                         Some serialized \<Rightarrow> serialized
                       | None \<Rightarrow> content)
                 else content
             | None \<Rightarrow> content)
      in replaceUrls (decode h) reg content)"

lemma processDocument_url:
  "url (processDocument h reg i file content)
     = createObjectURL h i (transformedContent h reg i content)"
  by (simp add: processDocument_def transformedContent_def Let_def
           split: option.splits prod.splits)








end
